theory Spec2Isabelle
  imports Main "HOL-Library.Word"
begin

section \<open>Byte buffers and the JavaScript helpers the worker relies on\<close>

text \<open>
  The development follows \<^verbatim>\<open>src/_worker.js\<close>. A chunk is an \<^verbatim>\<open>ArrayBuffer\<close>: a list
  of bytes. \<^verbatim>\<open>ArrayBuffer.prototype.slice(a, b)\<close> clamps both ends to the buffer, so a
  slice past the end is empty or short instead of failing.
\<close>

type_synonym byte = "8 word"

definition slice_bytes :: "byte list \<Rightarrow> nat \<Rightarrow> nat \<Rightarrow> byte list" where
  "slice_bytes buf a b = take (b - a) (drop a buf)"

text \<open>
  \<^verbatim>\<open>new Uint8Array(buf)[0]\<close>: the first byte, or \<^verbatim>\<open>undefined\<close> (here \<open>None\<close>) when the
  array is empty.
\<close>

definition first_byte :: "byte list \<Rightarrow> byte option" where
  "first_byte xs = (case xs of [] \<Rightarrow> None | b # _ \<Rightarrow> Some b)"

text \<open>
  \<^verbatim>\<open>Number.prototype.toString(radix)\<close> on a non-negative integer, for the radices 16
  (lowercase digits) and 10.
\<close>

definition digit_char :: "nat \<Rightarrow> char" where
  "digit_char d = ''0123456789abcdef'' ! d"

fun toString :: "nat \<Rightarrow> nat \<Rightarrow> string" where
  "toString radix n =
     (if radix < 2 \<or> n < radix then [digit_char n]
      else toString radix (n div radix) @ [digit_char (n mod radix)])"

declare toString.simps [simp del]

text \<open>\<^verbatim>\<open>String.prototype.padStart(2, '0')\<close>.\<close>

definition padStart2 :: "string \<Rightarrow> string" where
  "padStart2 s = replicate (2 - length s) CHR ''0'' @ s"

text \<open>
  \<^verbatim>\<open>stringify(arr)\<close> (lines 470-472): every byte as two lowercase hex digits, concatenated
  by \<^verbatim>\<open>reduce\<close> from the left.
\<close>

definition stringify :: "byte list \<Rightarrow> string" where
  "stringify arr = foldl (\<lambda>str byte. str @ padStart2 (toString 16 (unat byte))) [] arr"

text \<open>\<^verbatim>\<open>Array.prototype.join(sep)\<close> on an array of strings.\<close>

fun join :: "string \<Rightarrow> string list \<Rightarrow> string" where
  "join sep [] = []"
| "join sep [x] = x"
| "join sep (x # y # ys) = x @ sep @ join sep (y # ys)"

text \<open>\<^verbatim>\<open>userID.replace(/-/g, '')\<close>: the string without its hyphens.\<close>

definition remove_hyphens :: "string \<Rightarrow> string" where
  "remove_hyphens s = filter (\<lambda>c. c \<noteq> CHR ''-'') s"

text \<open>
  \<^verbatim>\<open>DataView.prototype.getUint16(offset)\<close> reads two bytes big-endian and throws a
  \<^verbatim>\<open>RangeError\<close> when they are not both inside the view.
\<close>

datatype js_exception = RangeError

definition getUint16 :: "byte list \<Rightarrow> nat \<Rightarrow> js_exception + nat" where
  "getUint16 view off =
     (if off + 2 \<le> length view
      then Inr (256 * unat (view ! off) + unat (view ! (off + 1)))
      else Inl RangeError)"

section \<open>The key-value namespace and the configuration\<close>

text \<open>
  \<^verbatim>\<open>env.VLESS_KV.get(key)\<close> resolves to the stored string, resolves to \<^verbatim>\<open>null\<close>, or
  rejects. The worker reads the module variables \<^verbatim>\<open>userID\<close> and \<^verbatim>\<open>proxyIP\<close> and the
  optional binding \<^verbatim>\<open>env.VLESS_KV\<close>. Two functions of the platform are taken as
  parameters: \<^verbatim>\<open>TextDecoder.decode\<close>, and whether the \<open>i\<close>-th socket that \<^verbatim>\<open>connect\<close>
  returns rejects what is written to it (a destination that cannot be reached).
\<close>

datatype kv_reply = KvValue "string option" | KvThrows

record config =
  userID :: string
  proxyIP :: string
  VLESS_KV :: "(string \<Rightarrow> kv_reply) option"
  TextDecoder_decode :: "byte list \<Rightarrow> string"
  rejects :: "nat \<Rightarrow> bool"

text \<open>
  \<^verbatim>\<open>new TextDecoder().decode(buf)\<close>: the empty buffer decodes to the empty string; what
  a non-empty buffer decodes to is the platform's.
\<close>

definition text_decode :: "config \<Rightarrow> byte list \<Rightarrow> string" where
  "text_decode cfg bs = (if bs = [] then [] else TextDecoder_decode cfg bs)"

section \<open>processVlessHeader (lines 186-296)\<close>

datatype message =
    Invalid_data_length
  | Invalid_user_ID
  | Unsupported_command "byte option"
  | Invalid_address_type "byte option"
  | Address_value_is_empty

record vless_request =
  addressRemote :: string
  addressType :: byte
  portRemote :: nat
  rawDataIndex :: nat
  vlessVersion :: "byte list"
  isUDP :: bool

datatype header_result = HasError message | Parsed vless_request

text \<open>
  Lines 198-216: the static comparison, then the lookup in the namespace. The first
  component lists the keys passed to \<^verbatim>\<open>VLESS_KV.get\<close>, in order; the second is
  \<^verbatim>\<open>isValidUser\<close>. A stored value counts when it is truthy, which for a string means
  non-empty; a rejected lookup is caught and leaves \<^verbatim>\<open>isValidUser\<close> false.
\<close>

definition truthy :: "string option \<Rightarrow> bool" where
  "truthy v = (case v of None \<Rightarrow> False | Some s \<Rightarrow> s \<noteq> [])"

definition validate_user :: "config \<Rightarrow> string \<Rightarrow> string list \<times> bool" where
  "validate_user cfg uuidString =
     (if uuidString = remove_hyphens (userID cfg) then ([], True)
      else (case VLESS_KV cfg of
              None \<Rightarrow> ([], False)
            | Some kv \<Rightarrow>
                (case kv uuidString of
                   KvValue storedAccount \<Rightarrow> ([uuidString], truthy storedAccount)
                 | KvThrows \<Rightarrow> ([uuidString], False))))"

text \<open>
  Lines 266-271: the loop over the eight groups of an IPv6 address; the first read
  outside the view throws.
\<close>

function ipv6_loop :: "byte list \<Rightarrow> nat \<Rightarrow> string list \<Rightarrow> js_exception + string list" where
  "ipv6_loop dataView i ipv6 =
     (if i < 8
      then (case getUint16 dataView (i * 2) of
              Inl e \<Rightarrow> Inl e
            | Inr g \<Rightarrow> ipv6_loop dataView (i + 1) (ipv6 @ [toString 16 g]))
      else Inr ipv6)"
  by pat_completeness auto
termination
  by (relation "measure (\<lambda>(dataView, i, ipv6). 8 - i)") auto

declare ipv6_loop.simps [simp del]

text \<open>
  Lines 244-295, after the command and the port are read: the address, the emptiness
  check and the result. For a domain name whose length byte lies past the end of the
  buffer, \<^verbatim>\<open>addressLength\<close> is \<^verbatim>\<open>undefined\<close>, the end of the slice is \<^verbatim>\<open>NaN\<close> and is read
  as 0, the slice is empty and decodes to the empty string, so the check of line 280
  returns the error.
\<close>

definition parse_address ::
  "config \<Rightarrow> byte list \<Rightarrow> byte list \<Rightarrow> bool \<Rightarrow> nat \<Rightarrow> nat \<Rightarrow> js_exception + header_result" where
  "parse_address cfg vlessBuffer version isUDP' portRemote' addressIndex =
     (let addressType' = first_byte (slice_bytes vlessBuffer addressIndex (addressIndex + 1));
          addressValueIndex = addressIndex + 1;
          finish = (\<lambda>addressValue ty index.
             if addressValue = [] then HasError Address_value_is_empty
             else Parsed \<lparr>addressRemote = addressValue, addressType = ty,
                    portRemote = portRemote', rawDataIndex = index,
                    vlessVersion = version, isUDP = isUDP'\<rparr>)
      in if addressType' = Some 1 then
           Inr (finish
             (join ''.'' (map (\<lambda>b. toString 10 (unat b))
                (slice_bytes vlessBuffer addressValueIndex (addressValueIndex + 4))))
             1 (addressValueIndex + 4))
         else if addressType' = Some 2 then
           (case first_byte (slice_bytes vlessBuffer addressValueIndex (addressValueIndex + 1)) of
              None \<Rightarrow> Inr (HasError Address_value_is_empty)
            | Some addressLength \<Rightarrow>
                Inr (finish
                  (text_decode cfg (slice_bytes vlessBuffer (addressValueIndex + 1)
                     (addressValueIndex + 1 + unat addressLength)))
                  2 (addressValueIndex + 1 + unat addressLength)))
         else if addressType' = Some 3 then
           (case ipv6_loop (slice_bytes vlessBuffer addressValueIndex (addressValueIndex + 16)) 0 [] of
              Inl e \<Rightarrow> Inl e
            | Inr ipv6 \<Rightarrow> Inr (finish (join '':'' ipv6) 3 (addressValueIndex + 16)))
         else Inr (HasError (Invalid_address_type addressType')))"

definition processVlessHeader ::
  "config \<Rightarrow> byte list \<Rightarrow> string list \<times> (js_exception + header_result)" where
  "processVlessHeader cfg vlessBuffer =
     (if length vlessBuffer < 24 then ([], Inr (HasError Invalid_data_length))
      else
        let version = slice_bytes vlessBuffer 0 1;
            uuidString = stringify (slice_bytes vlessBuffer 1 17);
            (gets, isValidUser) = validate_user cfg uuidString
        in if \<not> isValidUser then (gets, Inr (HasError Invalid_user_ID))
           else
             let optLength = unat (vlessBuffer ! 17);
                 command = first_byte (slice_bytes vlessBuffer (18 + optLength) (18 + optLength + 1))
             in if command \<noteq> Some 1 \<and> command \<noteq> Some 2
                then (gets, Inr (HasError (Unsupported_command command)))
                else
                  let portIndex = 18 + optLength + 1
                  in (case getUint16 (slice_bytes vlessBuffer portIndex (portIndex + 2)) 0 of
                        Inl e \<Rightarrow> (gets, Inl e)
                      | Inr portRemote' \<Rightarrow>
                          (gets, parse_address cfg vlessBuffer version (command = Some 2)
                                   portRemote' (portIndex + 2))))"

section \<open>The tunnel session (lines 76-181 and 301-397)\<close>

text \<open>
  A session is the state that the callbacks of one WebSocket share, together with a
  record of what they did to the outside: the \<^verbatim>\<open>connect\<close> calls in order (a socket is
  named by its position in that list), the buffers written to each outbound socket,
  the buffers passed to \<^verbatim>\<open>webSocket.send\<close>, and the keys looked up in the namespace.
  Every callback runs to completion before the next event is delivered; a write to a
  socket that does not reject succeeds. Logging is left out. \<^verbatim>\<open>udpStreamWrite\<close> is
  never assigned, so the branch of line 106 is never taken and is left out as well.
\<close>

datatype ready_state = WS_READY_STATE_OPEN | WS_READY_STATE_CLOSING | WS_READY_STATE_CLOSED

datatype stream_state = Reading | Finished

text \<open>
  The variables \<^verbatim>\<open>handleTCPOutBound\<close> closes over: they are what \<^verbatim>\<open>retry\<close> dials and
  writes again.
\<close>

record tcp_outbound =
  tcp_address :: string
  tcp_port :: nat
  rawClientData :: "byte list"
  vlessResponseHeader :: "byte list"

text \<open>
  A running \<^verbatim>\<open>remoteSocketToWS\<close>: the socket it reads, its flag, and its \<^verbatim>\<open>retry\<close>
  argument (\<open>None\<close> for \<^verbatim>\<open>null\<close>).
\<close>

record pump =
  source :: nat
  hasIncomingData :: bool
  retry :: "tcp_outbound option"

record session =
  readyState :: ready_state
  upstream :: stream_state
  isDns :: bool
  remoteSocketValue :: "nat option"
  currentVlessVersion :: "byte list"
  kvGets :: "string list"
  connects :: "(string \<times> nat) list"
  written :: "(nat \<times> byte list) list"
  closedHandlers :: "nat list"
  downstream :: "pump option"
  sent :: "byte list list"

text \<open>The state after \<^verbatim>\<open>webSocket.accept()\<close> (lines 77-99).\<close>

definition initial :: session where
  "initial = \<lparr>readyState = WS_READY_STATE_OPEN, upstream = Reading, isDns = False,
     remoteSocketValue = None, currentVlessVersion = [0, 0], kvGets = [],
     connects = [], written = [], closedHandlers = [], downstream = None, sent = []\<rparr>"

text \<open>\<^verbatim>\<open>safeCloseWebSocket\<close> (lines 457-465).\<close>

definition safeCloseWebSocket :: "session \<Rightarrow> session" where
  "safeCloseWebSocket s =
     (if readyState s = WS_READY_STATE_OPEN \<or> readyState s = WS_READY_STATE_CLOSING
      then s\<lparr>readyState := WS_READY_STATE_CLOSED\<rparr> else s)"

text \<open>
  \<^verbatim>\<open>connectAndWrite\<close> (lines 310-329). The socket is stored in \<^verbatim>\<open>remoteSocket.value\<close>
  before anything is written; a rejected write throws out of the function (\<open>None\<close>).
\<close>

definition connectAndWrite ::
  "config \<Rightarrow> tcp_outbound \<Rightarrow> string \<Rightarrow> nat \<Rightarrow> session \<Rightarrow> session \<times> nat option" where
  "connectAndWrite cfg ob address port s =
     (let tcpSocket = length (connects s);
          s1 = s\<lparr>connects := connects s @ [(address, port)],
                 remoteSocketValue := Some tcpSocket\<rparr>
      in if rejects cfg tcpSocket then (s1, None)
         else (s1\<lparr>written := written s1 @
                  [(tcpSocket, vlessResponseHeader ob), (tcpSocket, rawClientData ob)]\<rparr>,
               Some tcpSocket))"

text \<open>
  The start of \<^verbatim>\<open>remoteSocketToWS\<close> (lines 365-368), after the handler on
  \<^verbatim>\<open>tcpSocket.closed\<close> is installed (lines 338-344 and 351-357).
\<close>

definition remoteSocketToWS :: "nat \<Rightarrow> tcp_outbound option \<Rightarrow> session \<Rightarrow> session" where
  "remoteSocketToWS tcpSocket retry' s =
     s\<lparr>closedHandlers := closedHandlers s @ [tcpSocket],
       downstream := Some \<lparr>source = tcpSocket, hasIncomingData = False, retry = retry'\<rparr>\<rparr>"

text \<open>\<^verbatim>\<open>retry\<close> (lines 331-347): \<^verbatim>\<open>proxyIP || addressRemote\<close> on the same port.\<close>

definition retry_call :: "config \<Rightarrow> tcp_outbound \<Rightarrow> session \<Rightarrow> session" where
  "retry_call cfg ob s =
     (case connectAndWrite cfg ob
             (if proxyIP cfg \<noteq> [] then proxyIP cfg else tcp_address ob) (tcp_port ob) s of
        (s1, None) \<Rightarrow> s1
      | (s1, Some tcpSocket) \<Rightarrow> remoteSocketToWS tcpSocket None s1)"

text \<open>\<^verbatim>\<open>handleTCPOutBound\<close> (lines 301-360).\<close>

definition handleTCPOutBound :: "config \<Rightarrow> tcp_outbound \<Rightarrow> session \<Rightarrow> session" where
  "handleTCPOutBound cfg ob s =
     (case connectAndWrite cfg ob (tcp_address ob) (tcp_port ob) s of
        (s1, None) \<Rightarrow> s1
      | (s1, Some tcpSocket) \<Rightarrow> remoteSocketToWS tcpSocket (Some ob) s1)"

text \<open>
  The sink of \<^verbatim>\<open>remoteSocketToWS\<close>. \<^verbatim>\<open>write\<close> (lines 372-380) sets the flag first; on a
  WebSocket that is not open the stream is put in error and nothing is sent, so the
  pump ends with the flag set. When the pump ends (lines 389-396), \<^verbatim>\<open>retry\<close> is called
  if the flag is still false and \<^verbatim>\<open>retry\<close> is not \<^verbatim>\<open>null\<close>.
\<close>

definition remote_write :: "byte list \<Rightarrow> session \<Rightarrow> session" where
  "remote_write chunk s =
     (case downstream s of
        None \<Rightarrow> s
      | Some p \<Rightarrow>
          if readyState s \<noteq> WS_READY_STATE_OPEN then s\<lparr>downstream := None\<rparr>
          else s\<lparr>sent := sent s @ [chunk],
                 downstream := Some (p\<lparr>hasIncomingData := True\<rparr>)\<rparr>)"

definition remote_end :: "config \<Rightarrow> session \<Rightarrow> session" where
  "remote_end cfg s =
     (case downstream s of
        None \<Rightarrow> s
      | Some p \<Rightarrow>
          (case retry p of
             Some ob \<Rightarrow>
               if hasIncomingData p then s\<lparr>downstream := None\<rparr>
               else retry_call cfg ob (s\<lparr>downstream := None\<rparr>)
           | None \<Rightarrow> s\<lparr>downstream := None\<rparr>))"

text \<open>
  A sink \<^verbatim>\<open>write\<close> that throws makes \<^verbatim>\<open>pipeTo\<close> reject; the readable side is then
  cancelled, and \<^verbatim>\<open>cancel\<close> (lines 441-448) closes the WebSocket.
\<close>

definition abort_upstream :: "session \<Rightarrow> session" where
  "abort_upstream s = safeCloseWebSocket (s\<lparr>upstream := Finished\<rparr>)"

text \<open>
  The sink of the inbound stream: \<^verbatim>\<open>write(chunk)\<close> (lines 105-164). A socket that
  rejected its first write still holds the writer's lock, so \<^verbatim>\<open>getWriter\<close> throws.
\<close>

definition ws_write :: "config \<Rightarrow> byte list \<Rightarrow> session \<Rightarrow> session" where
  "ws_write cfg chunk s =
     (case remoteSocketValue s of
        Some tcpSocket \<Rightarrow>
          if rejects cfg tcpSocket then abort_upstream s
          else s\<lparr>written := written s @ [(tcpSocket, chunk)]\<rparr>
      | None \<Rightarrow>
          (case processVlessHeader cfg chunk of
             (gets, Inl e) \<Rightarrow> abort_upstream (s\<lparr>kvGets := kvGets s @ gets\<rparr>)
           | (gets, Inr (HasError m)) \<Rightarrow> abort_upstream (s\<lparr>kvGets := kvGets s @ gets\<rparr>)
           | (gets, Inr (Parsed req)) \<Rightarrow>
               let s1 = s\<lparr>kvGets := kvGets s @ gets,
                          currentVlessVersion := vlessVersion req\<rparr>
               in if isUDP req \<and> portRemote req \<noteq> 53 then abort_upstream s1
                  else
                    let s2 = (if isUDP req then s1\<lparr>isDns := True\<rparr> else s1)
                    in if isDns s2 then s2
                       else handleTCPOutBound cfg
                              \<lparr>tcp_address = addressRemote req, tcp_port = portRemote req,
                               rawClientData = drop (rawDataIndex req) chunk,
                               vlessResponseHeader =
                                 [case first_byte (vlessVersion req) of
                                    Some v \<Rightarrow> v | None \<Rightarrow> 0, 0]\<rparr>
                              s2))"

text \<open>
  The events of a session: a binary message from the client (the early data of the
  upgrade request, when there is any, is the first of them, lines 429-434); the client
  closing the WebSocket or the WebSocket failing (lines 416-427); a chunk read from the
  socket the pump is reading; the end of that socket's readable side, by close or by
  error; and the \<^verbatim>\<open>closed\<close> promise of a socket settling.
\<close>

datatype event =
    Message "byte list"
  | PeerClose
  | PeerError
  | RemoteData "byte list"
  | RemoteEnd
  | RemoteClosed nat

fun step :: "config \<Rightarrow> session \<Rightarrow> event \<Rightarrow> session" where
  "step cfg s (Message chunk) = (if upstream s = Reading then ws_write cfg chunk s else s)"
| "step cfg s PeerClose = (safeCloseWebSocket s)\<lparr>upstream := Finished\<rparr>"
| "step cfg s PeerError = s\<lparr>upstream := Finished\<rparr>"
| "step cfg s (RemoteData chunk) = remote_write chunk s"
| "step cfg s RemoteEnd = remote_end cfg s"
| "step cfg s (RemoteClosed tcpSocket) =
     (if tcpSocket \<in> set (closedHandlers s) then safeCloseWebSocket s else s)"

definition run :: "config \<Rightarrow> event list \<Rightarrow> session" where
  "run cfg evs = foldl (step cfg) initial evs"

text \<open>What was written to one outbound socket, and what was sent downstream, as bytes.\<close>

definition outbound_bytes :: "nat \<Rightarrow> session \<Rightarrow> byte list" where
  "outbound_bytes tcpSocket s = concat (map snd (filter (\<lambda>w. fst w = tcpSocket) (written s)))"

definition downstream_bytes :: "session \<Rightarrow> byte list" where
  "downstream_bytes s = concat (sent s)"

section \<open>The header layout as the specification words it\<close>

text \<open>
  The layout table of the specification, read off a buffer directly: the options length
  \<open>O\<close> at offset 17, the port at \<open>19 + O\<close>, the address type at \<open>21 + O\<close>, the address
  from \<open>22 + O\<close>. These are compared with what \<^const>\<open>processVlessHeader\<close> returns.
\<close>

definition spec_optionsLength :: "byte list \<Rightarrow> nat" where
  "spec_optionsLength buf = unat (buf ! 17)"

definition spec_addressType :: "byte list \<Rightarrow> byte" where
  "spec_addressType buf = buf ! (21 + spec_optionsLength buf)"

definition spec_addressLength :: "byte list \<Rightarrow> nat" where
  "spec_addressLength buf =
     (if spec_addressType buf = 1 then 4
      else if spec_addressType buf = 3 then 16
      else unat (buf ! (22 + spec_optionsLength buf)))"

definition spec_payloadOffset :: "byte list \<Rightarrow> nat" where
  "spec_payloadOffset buf =
     22 + spec_optionsLength buf + spec_addressLength buf
       + (if spec_addressType buf = 2 then 1 else 0)"

definition spec_port :: "byte list \<Rightarrow> nat" where
  "spec_port buf =
     256 * unat (buf ! (19 + spec_optionsLength buf))
       + unat (buf ! (20 + spec_optionsLength buf))"

text \<open>The characters of a lowercase hexadecimal rendering.\<close>

definition hex_digits :: "char set" where
  "hex_digits = set ''0123456789abcdef''"

section \<open>The dials of a session\<close>

text \<open>
  What every reachable session satisfies: \<^verbatim>\<open>remoteSocket.value\<close> is set exactly when a
  dial was made; a pump that still holds \<^verbatim>\<open>retry\<close> runs on the only dial so far, which
  went to the destination \<^verbatim>\<open>retry\<close> closes over; a pump without \<^verbatim>\<open>retry\<close> runs on the
  second dial; and there are never more than two dials.
\<close>

definition dial_inv :: "session \<Rightarrow> bool" where
  "dial_inv s =
     ((remoteSocketValue s = None) = (connects s = [])
      \<and> (case downstream s of
            None \<Rightarrow> length (connects s) \<le> 2
          | Some p \<Rightarrow>
              (case retry p of
                 Some ob \<Rightarrow> connects s = [(tcp_address ob, tcp_port ob)]
               | None \<Rightarrow> length (connects s) = 2)))"

text \<open>
  A session in which a dial was made and the running pump, if there is one, has been
  handed a chunk or holds no \<^verbatim>\<open>retry\<close>: such a session does not dial again.
\<close>

definition settled :: "session \<Rightarrow> bool" where
  "settled s =
     (connects s \<noteq> []
      \<and> (case downstream s of
            None \<Rightarrow> True
          | Some q \<Rightarrow> hasIncomingData q \<or> retry q = None))"

section \<open>Concrete inputs\<close>

text \<open>
  A configuration with the identifier of the specification's scenarios, no fallback
  destination and no namespace; on ASCII bytes the decoder returns the characters with
  those codes.
\<close>

definition ascii_decode :: "byte list \<Rightarrow> string" where
  "ascii_decode bs = map (\<lambda>b. char_of (unat b)) bs"

definition example_config :: config where
  "example_config = \<lparr>userID = ''01020304-0506-0708-090a-0b0c0d0e0f10'', proxyIP = [],
     VLESS_KV = None, TextDecoder_decode = ascii_decode, rejects = (\<lambda>i. False)\<rparr>"

text \<open>The same with the fallback destination of scenario 5.\<close>

definition fallback_config :: config where
  "fallback_config = example_config\<lparr>proxyIP := ''cdn.example''\<rparr>"

text \<open>
  The default identifier of the worker as the static one, and a namespace that answers
  with \<open>reply\<close> for the key of the scenarios' identifier and with \<^verbatim>\<open>null\<close> otherwise.
\<close>

definition example_kv :: "kv_reply \<Rightarrow> string \<Rightarrow> kv_reply" where
  "example_kv reply key =
     (if key = ''0102030405060708090a0b0c0d0e0f10'' then reply else KvValue None)"

definition kv_config :: "kv_reply \<Rightarrow> config" where
  "kv_config reply = example_config
     \<lparr>userID := ''550e8400-e29b-41d4-a716-446655440000'',
      VLESS_KV := Some (example_kv reply)\<rparr>"

text \<open>
  The identifier of the scenarios configured with uppercase digits, without a namespace
  and with one that holds an account for every key.
\<close>

definition uppercase_config :: config where
  "uppercase_config = example_config\<lparr>userID := ''01020304-0506-0708-090A-0B0C0D0E0F10''\<rparr>"

definition uppercase_kv_config :: config where
  "uppercase_kv_config = uppercase_config\<lparr>VLESS_KV := Some (\<lambda>key. KvValue (Some ''{}''))\<rparr>"

definition example_id :: "byte list" where
  "example_id = [1, 2, 3, 4, 5, 6, 7, 8, 9, 10, 11, 12, 13, 14, 15, 16]"

text \<open>
  Scenario 1 of the specification: version 0, no options, TCP, port 80, IPv4 127.0.0.1,
  payload \<^verbatim>\<open>HELLO\<close>; and what \<^verbatim>\<open>handleTCPOutBound\<close> is called with for it.
\<close>

definition hello_chunk :: "byte list" where
  "hello_chunk = [0] @ example_id @ [0, 1, 0, 80, 1, 127, 0, 0, 1] @ [72, 69, 76, 76, 79]"

definition hello_outbound :: tcp_outbound where
  "hello_outbound = \<lparr>tcp_address = ''127.0.0.1'', tcp_port = 80,
     rawClientData = [72, 69, 76, 76, 79], vlessResponseHeader = [0, 0]\<rparr>"

text \<open>Two option bytes, TCP, port 443, the domain name \<^verbatim>\<open>a.b\<close>, payload \<^verbatim>\<open>GET\<close>.\<close>

definition domain_chunk :: "byte list" where
  "domain_chunk = [0] @ example_id @ [2, 170, 187, 1, 1, 187, 2, 3, 97, 46, 98] @ [71, 69, 84]"

text \<open>
  24 bytes with a valid identifier and an options length of 5: the command is the last
  byte, the port would start at offset 24.
\<close>

definition truncated_chunk :: "byte list" where
  "truncated_chunk = [0] @ example_id @ [5, 0, 0, 0, 0, 0, 1]"

text \<open>
  24 bytes announcing an IPv6 address of which only two bytes are there.
\<close>

definition short_ipv6_chunk :: "byte list" where
  "short_ipv6_chunk = [0] @ example_id @ [0, 1, 0, 80, 3, 32, 1]"

text \<open>
  Scenario 4: UDP to port 4433 of 8.8.8.8; and UDP to port 53 of 8.8.8.8, each with four
  bytes of payload.
\<close>

definition udp_chunk :: "byte list" where
  "udp_chunk = [0] @ example_id @ [0, 2, 17, 81, 1, 8, 8, 8, 8] @ [0, 2, 171, 205]"

definition dns_chunk :: "byte list" where
  "dns_chunk = [0] @ example_id @ [0, 2, 0, 53, 1, 8, 8, 8, 8] @ [0, 2, 171, 205]"

section \<open>Slices and reads\<close>

lemma first_byte_slice:
  "a < b \<Longrightarrow>
   first_byte (slice_bytes buf a b) = (if a < length buf then Some (buf ! a) else None)"
proof (cases "a < length buf")
  case True
  assume "a < b"
  then obtain k where k: "b - a = Suc k" by (cases "b - a") auto
  from True have "drop a buf = buf ! a # drop (Suc a) buf" by (simp add: Cons_nth_drop_Suc)
  with True k show ?thesis by (simp add: first_byte_def slice_bytes_def)
next
  case False
  then show ?thesis by (simp add: first_byte_def slice_bytes_def)
qed

lemma getUint16_slice:
  "a + 2 \<le> b \<Longrightarrow>
   getUint16 (slice_bytes buf a b) 0 =
     (if a + 2 \<le> length buf then Inr (256 * unat (buf ! a) + unat (buf ! (a + 1)))
      else Inl RangeError)"
  by (auto simp: getUint16_def slice_bytes_def)

lemma length_slice_id: "24 \<le> length buf \<Longrightarrow> length (slice_bytes buf 1 17) = 16"
  by (simp add: slice_bytes_def)

lemma parse_address_Parsed:
  assumes "parse_address cfg buf version u port ai = Inr (Parsed req)"
  shows "ai < length buf \<and> addressType req = buf ! ai \<and> portRemote req = port
     \<and> (buf ! ai = 1 \<and> rawDataIndex req = ai + 1 + 4
        \<or> buf ! ai = 3 \<and> rawDataIndex req = ai + 1 + 16
        \<or> buf ! ai = 2 \<and> ai + 1 < length buf
            \<and> rawDataIndex req = ai + 1 + 1 + unat (buf ! (ai + 1)))"
  using assms
  by (auto simp: parse_address_def first_byte_slice Let_def
      split: if_splits option.splits sum.splits)

section \<open>The hexadecimal rendering of an identifier\<close>

lemma digit_char_hex: "d < 16 \<Longrightarrow> digit_char d \<in> hex_digits"
proof -
  assume "d < 16"
  then have "d = 0 \<or> d = 1 \<or> d = 2 \<or> d = 3 \<or> d = 4 \<or> d = 5 \<or> d = 6 \<or> d = 7 \<or> d = 8
     \<or> d = 9 \<or> d = 10 \<or> d = 11 \<or> d = 12 \<or> d = 13 \<or> d = 14 \<or> d = 15" by arith
  then show ?thesis by (elim disjE) (simp_all add: digit_char_def hex_digits_def)
qed

lemma set_toString16: "set (toString 16 n) \<subseteq> hex_digits"
proof (induction "16::nat" n rule: toString.induct)
  case (1 n)
  show ?case
  proof (cases "n < 16")
    case True
    then show ?thesis using digit_char_hex[of n] by (subst toString.simps) simp
  next
    case False
    have "n mod 16 < 16" by simp
    from digit_char_hex[OF this] 1 False show ?thesis
      by (subst toString.simps) simp
  qed
qed

lemma set_padStart2: "set s \<subseteq> hex_digits \<Longrightarrow> set (padStart2 s) \<subseteq> hex_digits"
  by (auto simp: padStart2_def hex_digits_def)

lemma length_hex_byte: "length (padStart2 (toString 16 (unat (b :: byte)))) = 2"
proof -
  have lt: "unat b < 256" using unsigned_less[of b, where 'a = nat] by simp
  show ?thesis
  proof (cases "unat b < 16")
    case True
    then show ?thesis by (simp add: padStart2_def toString.simps[of 16 "unat b"])
  next
    case False
    from lt have "unat b div 16 < 16" by simp
    with False show ?thesis
      by (simp add: padStart2_def toString.simps[of 16 "unat b"]
          toString.simps[of 16 "unat b div 16"])
  qed
qed

lemma stringify_snoc:
  "stringify (arr @ [b]) = stringify arr @ padStart2 (toString 16 (unat b))"
  by (simp add: stringify_def)

lemma set_stringify: "set (stringify arr) \<subseteq> hex_digits"
proof (induction arr rule: rev_induct)
  case Nil
  show ?case by (simp add: stringify_def)
next
  case (snoc b arr)
  with set_padStart2[OF set_toString16, of "unat b"] show ?case
    by (simp add: stringify_snoc)
qed

lemma length_stringify: "length (stringify arr) = 2 * length arr"
  by (induction arr rule: rev_induct) (simp_all add: stringify_def length_hex_byte)

lemma uppercase_not_hex: "c \<in> set ''ABCDEF'' \<Longrightarrow> c \<notin> hex_digits \<and> c \<noteq> CHR ''-''"
  by (auto simp: hex_digits_def)

lemma stringify_never_uppercase:
  assumes "c \<in> set uid" and "c \<in> set ''ABCDEF''"
  shows "stringify ids \<noteq> remove_hyphens uid"
proof
  assume eq: "stringify ids = remove_hyphens uid"
  from assms uppercase_not_hex[OF assms(2)] have "c \<in> set (remove_hyphens uid)"
    by (simp add: remove_hyphens_def)
  with eq set_stringify[of ids] have "c \<in> hex_digits" by auto
  with uppercase_not_hex[OF assms(2)] show False by simp
qed

section \<open>The identity check inside the parser\<close>

lemma validate_user_True:
  "validate_user cfg key = (gets, True) \<Longrightarrow>
     key = remove_hyphens (userID cfg) \<and> gets = []
     \<or> key \<noteq> remove_hyphens (userID cfg) \<and> gets = [key]
         \<and> (\<exists>kv v. VLESS_KV cfg = Some kv \<and> kv key = KvValue (Some v) \<and> v \<noteq> [])"
  by (auto simp: validate_user_def truthy_def split: if_splits option.splits kv_reply.splits)

lemma processVlessHeader_valid_user:
  assumes "snd (processVlessHeader cfg buf) \<noteq> Inr (HasError Invalid_user_ID)"
    and "24 \<le> length buf"
  shows "snd (validate_user cfg (stringify (slice_bytes buf 1 17)))"
  using assms
  by (auto simp: processVlessHeader_def Let_def split: if_splits prod.splits)

lemma processVlessHeader_gets:
  "24 \<le> length buf \<Longrightarrow>
   fst (processVlessHeader cfg buf) = fst (validate_user cfg (stringify (slice_bytes buf 1 17)))"
  by (auto simp: processVlessHeader_def Let_def split: if_splits prod.splits sum.splits)

lemma processVlessHeader_invalid_user:
  "24 \<le> length buf \<Longrightarrow>
   (snd (processVlessHeader cfg buf) = Inr (HasError Invalid_user_ID))
     = (\<not> snd (validate_user cfg (stringify (slice_bytes buf 1 17))))"
  by (auto simp: processVlessHeader_def parse_address_def Let_def
      split: if_splits prod.splits sum.splits option.splits)

section \<open>What a step does to the dials\<close>

lemma safeCloseWebSocket_fields [simp]:
  "connects (safeCloseWebSocket s) = connects s"
  "downstream (safeCloseWebSocket s) = downstream s"
  "remoteSocketValue (safeCloseWebSocket s) = remoteSocketValue s"
  "upstream (safeCloseWebSocket s) = upstream s"
  "written (safeCloseWebSocket s) = written s"
  "sent (safeCloseWebSocket s) = sent s"
  by (simp_all add: safeCloseWebSocket_def)

lemma abort_upstream_fields [simp]:
  "connects (abort_upstream s) = connects s"
  "downstream (abort_upstream s) = downstream s"
  "remoteSocketValue (abort_upstream s) = remoteSocketValue s"
  "upstream (abort_upstream s) = Finished"
  "written (abort_upstream s) = written s"
  "sent (abort_upstream s) = sent s"
  by (simp_all add: abort_upstream_def)

lemma dial_inv_frame:
  "dial_inv s \<Longrightarrow> connects s' = connects s \<Longrightarrow> downstream s' = downstream s \<Longrightarrow>
   remoteSocketValue s' = remoteSocketValue s \<Longrightarrow> dial_inv s'"
  by (simp add: dial_inv_def cong: option.case_cong)

lemma connectAndWrite_fields:
  "connectAndWrite cfg ob a p s = (s', r) \<Longrightarrow>
     connects s' = connects s @ [(a, p)] \<and> remoteSocketValue s' = Some (length (connects s))
     \<and> downstream s' = downstream s \<and> upstream s' = upstream s \<and> sent s' = sent s"
  by (auto simp: connectAndWrite_def Let_def split: if_splits)

lemma connects_handleTCPOutBound:
  "connects (handleTCPOutBound cfg ob s) = connects s @ [(tcp_address ob, tcp_port ob)]"
  by (cases "connectAndWrite cfg ob (tcp_address ob) (tcp_port ob) s")
     (auto simp: handleTCPOutBound_def remoteSocketToWS_def dest: connectAndWrite_fields
        split: option.splits)

lemma connects_retry_call:
  "connects (retry_call cfg ob s) =
     connects s @ [(if proxyIP cfg \<noteq> [] then proxyIP cfg else tcp_address ob, tcp_port ob)]"
  by (cases "connectAndWrite cfg ob
               (if proxyIP cfg \<noteq> [] then proxyIP cfg else tcp_address ob) (tcp_port ob) s")
     (auto simp: retry_call_def remoteSocketToWS_def dest: connectAndWrite_fields
        split: option.splits)

lemma handleTCPOutBound_inv:
  assumes "connects s = []" and "downstream s = None"
  shows "dial_inv (handleTCPOutBound cfg ob s)"
proof (cases "connectAndWrite cfg ob (tcp_address ob) (tcp_port ob) s")
  case (Pair s' r)
  from connectAndWrite_fields[OF Pair] assms show ?thesis
    by (cases r) (simp_all add: handleTCPOutBound_def Pair dial_inv_def remoteSocketToWS_def)
qed

lemma dial_inv_no_pump: "dial_inv s \<Longrightarrow> connects s = [] \<Longrightarrow> downstream s = None"
  by (cases "downstream s") (auto simp: dial_inv_def split: option.splits)

lemma ws_write_inv:
  assumes "dial_inv s"
  shows "dial_inv (ws_write cfg chunk s)"
proof (cases "remoteSocketValue s")
  case (Some sock)
  have "dial_inv (abort_upstream s)" "dial_inv (s\<lparr>written := w\<rparr>)" for w
    by (rule dial_inv_frame[OF assms]; simp)+
  with Some show ?thesis by (simp add: ws_write_def)
next
  case None
  with assms have c: "connects s = []" by (simp add: dial_inv_def)
  with assms have d: "downstream s = None" by (rule dial_inv_no_pump)
  have quiet: "dial_inv (abort_upstream (s\<lparr>kvGets := g, currentVlessVersion := v\<rparr>))"
    "dial_inv (abort_upstream (s\<lparr>kvGets := g\<rparr>))"
    "dial_inv (s\<lparr>kvGets := g, currentVlessVersion := v, isDns := True\<rparr>)"
    "dial_inv (s\<lparr>kvGets := g, currentVlessVersion := v\<rparr>)" for g v
    by (rule dial_inv_frame[OF assms]; simp)+
  have tcp: "dial_inv (handleTCPOutBound cfg ob (s\<lparr>kvGets := g, currentVlessVersion := v\<rparr>))"
    for ob g v
    using c d by (intro handleTCPOutBound_inv) simp_all
  show ?thesis
    using None quiet tcp
    by (simp add: ws_write_def Let_def split: prod.splits sum.splits header_result.splits)
qed

lemma retry_call_inv:
  assumes "connects s = [d]" and "downstream s = None"
  shows "dial_inv (retry_call cfg ob s)"
proof (cases "connectAndWrite cfg ob
                (if proxyIP cfg \<noteq> [] then proxyIP cfg else tcp_address ob) (tcp_port ob) s")
  case (Pair s' r)
  from connectAndWrite_fields[OF Pair] assms show ?thesis
    by (cases r) (simp_all add: retry_call_def Pair dial_inv_def remoteSocketToWS_def)
qed

lemma remote_end_inv:
  assumes "dial_inv s"
  shows "dial_inv (remote_end cfg s)"
proof (cases "downstream s")
  case None
  with assms show ?thesis by (simp add: remote_end_def)
next
  case (Some p)
  show ?thesis
  proof (cases "retry p")
    case None
    with Some assms show ?thesis by (simp add: remote_end_def dial_inv_def)
  next
    case (Some ob)
    note r = this
    show ?thesis
    proof (cases "hasIncomingData p")
      case True
      with r \<open>downstream s = Some p\<close> assms show ?thesis
        by (simp add: remote_end_def dial_inv_def)
    next
      case False
      from r \<open>downstream s = Some p\<close> assms
      have "connects (s\<lparr>downstream := None\<rparr>) = [(tcp_address ob, tcp_port ob)]"
        by (simp add: dial_inv_def)
      then have "dial_inv (retry_call cfg ob (s\<lparr>downstream := None\<rparr>))"
        by (rule retry_call_inv) simp
      with False r \<open>downstream s = Some p\<close> show ?thesis by (simp add: remote_end_def)
    qed
  qed
qed

lemma remote_write_inv: "dial_inv s \<Longrightarrow> dial_inv (remote_write chunk s)"
  by (auto simp: remote_write_def dial_inv_def split: option.splits)

lemma step_inv: "dial_inv s \<Longrightarrow> dial_inv (step cfg s ev)"
proof (cases ev)
  case (Message chunk)
  assume "dial_inv s"
  with Message show ?thesis by (simp add: ws_write_inv)
next
  case PeerClose
  assume "dial_inv s"
  then have "dial_inv ((safeCloseWebSocket s)\<lparr>upstream := Finished\<rparr>)"
    by (rule dial_inv_frame) simp_all
  with PeerClose show ?thesis by simp
next
  case PeerError
  assume "dial_inv s"
  then have "dial_inv (s\<lparr>upstream := Finished\<rparr>)"
    by (rule dial_inv_frame) simp_all
  with PeerError show ?thesis by simp
next
  case (RemoteData chunk)
  assume "dial_inv s"
  with RemoteData show ?thesis by (simp add: remote_write_inv)
next
  case RemoteEnd
  assume "dial_inv s"
  with RemoteEnd show ?thesis by (simp add: remote_end_inv)
next
  case (RemoteClosed sock)
  assume "dial_inv s"
  then have "dial_inv (safeCloseWebSocket s)"
    by (rule dial_inv_frame) simp_all
  with RemoteClosed \<open>dial_inv s\<close> show ?thesis by simp
qed

lemma run_snoc: "run cfg (evs @ [ev]) = step cfg (run cfg evs) ev"
  by (simp add: run_def)

lemma run_inv: "dial_inv (run cfg evs)"
proof (induction evs rule: rev_induct)
  case Nil
  show ?case by (simp add: run_def dial_inv_def initial_def)
next
  case (snoc ev evs)
  then show ?case by (simp add: run_snoc step_inv)
qed

lemma dial_inv_le2: "dial_inv s \<Longrightarrow> length (connects s) \<le> 2"
  by (auto simp: dial_inv_def split: option.splits)

lemma connects_step:
  "connects (step cfg s ev) = connects s \<or> (\<exists>d. connects (step cfg s ev) = connects s @ [d])"
proof (cases ev)
  case (Message chunk)
  show ?thesis
    by (simp add: Message ws_write_def Let_def connects_handleTCPOutBound
        split: option.splits prod.splits sum.splits header_result.splits)
next
  case RemoteEnd
  show ?thesis
    by (simp add: RemoteEnd remote_end_def connects_retry_call split: option.splits)
qed (auto simp: remote_write_def split: option.splits)

lemma connects_frozen:
  assumes "length (connects (run cfg evs)) = 2"
  shows "connects (run cfg (evs @ evs')) = connects (run cfg evs)"
proof (induction evs' rule: rev_induct)
  case Nil
  show ?case by simp
next
  case (snoc ev evs')
  have le: "length (connects (run cfg (evs @ evs' @ [ev]))) \<le> 2"
    by (rule dial_inv_le2[OF run_inv])
  have "run cfg (evs @ evs' @ [ev]) = step cfg (run cfg (evs @ evs')) ev"
    using run_snoc[of cfg "evs @ evs'" ev] by simp
  with connects_step[of cfg "run cfg (evs @ evs')" ev] snoc assms le
  show ?case by auto
qed

lemma new_dial:
  assumes inv: "dial_inv s" and ne: "connects s \<noteq> []"
    and ch: "connects (step cfg s ev) \<noteq> connects s"
  shows "ev = RemoteEnd
    \<and> (\<exists>p ob. downstream s = Some p \<and> \<not> hasIncomingData p \<and> retry p = Some ob
          \<and> connects s = [(tcp_address ob, tcp_port ob)]
          \<and> connects (step cfg s ev) =
               [(tcp_address ob, tcp_port ob),
                (if proxyIP cfg \<noteq> [] then proxyIP cfg else tcp_address ob, tcp_port ob)])"
proof (cases ev)
  case (Message chunk)
  from inv ne obtain sock where "remoteSocketValue s = Some sock"
    by (auto simp: dial_inv_def)
  with ch Message show ?thesis by (simp add: ws_write_def split: if_splits)
next
  case RemoteEnd
  from ch RemoteEnd obtain p ob
    where p: "downstream s = Some p" "retry p = Some ob" "\<not> hasIncomingData p"
    by (auto simp: remote_end_def split: option.splits if_splits)
  with inv have c: "connects s = [(tcp_address ob, tcp_port ob)]"
    by (simp add: dial_inv_def)
  from p c show ?thesis by (simp add: RemoteEnd remote_end_def connects_retry_call)
next
  case PeerClose with ch show ?thesis by simp
next
  case PeerError with ch show ?thesis by simp
next
  case (RemoteData chunk) with ch show ?thesis
    by (auto simp: remote_write_def split: option.splits if_splits)
next
  case (RemoteClosed k) with ch show ?thesis by (simp split: if_splits)
qed

lemma retry_spent:
  "downstream s = Some p \<Longrightarrow> \<not> hasIncomingData p \<Longrightarrow> retry p = Some ob \<Longrightarrow>
   downstream (step cfg s RemoteEnd) = Some q \<Longrightarrow> retry q = None"
  by (cases "connectAndWrite cfg ob
               (if proxyIP cfg \<noteq> [] then proxyIP cfg else tcp_address ob) (tcp_port ob)
               (s\<lparr>downstream := None\<rparr>)")
     (auto simp: remote_end_def retry_call_def remoteSocketToWS_def dest: connectAndWrite_fields
        split: option.splits)

text \<open>
  A chunk handed to a pump sets its flag (or ends the pump, when the WebSocket is not
  open), and from then on the list of dials stays as it is.
\<close>

lemma remote_write_settles:
  assumes "dial_inv s" and "downstream s \<noteq> None"
  shows "settled (step cfg s (RemoteData c))
    \<and> connects (step cfg s (RemoteData c)) = connects s"
proof -
  from assms obtain p where p: "downstream s = Some p" by auto
  with assms(1) have "connects s \<noteq> []"
    by (auto simp: dial_inv_def split: option.splits)
  with p show ?thesis by (simp add: remote_write_def settled_def)
qed

lemma settled_step:
  assumes inv: "dial_inv s" and st: "settled s"
  shows "connects (step cfg s ev) = connects s \<and> settled (step cfg s ev)"
proof -
  from st have ne: "connects s \<noteq> []" by (simp add: settled_def)
  have c: "connects (step cfg s ev) = connects s"
  proof (rule ccontr)
    assume "connects (step cfg s ev) \<noteq> connects s"
    from new_dial[OF inv ne this] obtain p ob
      where "downstream s = Some p" "\<not> hasIncomingData p" "retry p = Some ob"
      by blast
    with st show False by (simp add: settled_def)
  qed
  from inv ne obtain sock where sock: "remoteSocketValue s = Some sock"
    by (auto simp: dial_inv_def)
  have d: "case downstream (step cfg s ev) of
             None \<Rightarrow> True | Some q \<Rightarrow> hasIncomingData q \<or> retry q = None"
  proof (cases ev)
    case (Message chunk)
    with st sock show ?thesis by (simp add: settled_def ws_write_def)
  next
    case PeerClose
    with st show ?thesis by (simp add: settled_def)
  next
    case PeerError
    with st show ?thesis by (simp add: settled_def)
  next
    case (RemoteData chunk)
    with st show ?thesis by (simp add: settled_def remote_write_def split: option.splits)
  next
    case RemoteEnd
    with st show ?thesis by (auto simp: settled_def remote_end_def split: option.splits)
  next
    case (RemoteClosed k)
    with st show ?thesis by (simp add: settled_def)
  qed
  from c d ne show ?thesis by (simp add: settled_def)
qed

lemma settled_run:
  assumes "settled (run cfg evs)"
  shows "connects (run cfg (evs @ evs')) = connects (run cfg evs)
    \<and> settled (run cfg (evs @ evs'))"
proof (induction evs' rule: rev_induct)
  case Nil
  from assms show ?case by simp
next
  case (snoc ev evs')
  have "run cfg (evs @ evs' @ [ev]) = step cfg (run cfg (evs @ evs')) ev"
    using run_snoc[of cfg "evs @ evs'" ev] by simp
  with settled_step[OF run_inv, of cfg "evs @ evs'" cfg ev] snoc show ?case by simp
qed

lemma yielded_never_dials:
  assumes "downstream (run cfg pre) \<noteq> None"
  shows "connects (run cfg (pre @ RemoteData c # post)) = connects (run cfg pre)"
proof -
  from remote_write_settles[OF run_inv assms, of cfg c]
  have s: "settled (run cfg (pre @ [RemoteData c]))"
    and c: "connects (run cfg (pre @ [RemoteData c])) = connects (run cfg pre)"
    by (simp_all add: run_snoc)
  from settled_run[OF s, of post] c show ?thesis by simp
qed

lemma data_then_end_no_dial:
  "connects (step cfg (step cfg s (RemoteData c)) RemoteEnd) = connects s"
  by (auto simp: remote_write_def remote_end_def split: option.splits)

text \<open>Once the inbound stream has failed before any dial, nothing is dialled any more.\<close>

lemma finished_stays:
  "upstream s = Finished \<and> downstream s = None \<and> connects s = [] \<Longrightarrow>
   upstream (foldl (step cfg) s evs) = Finished \<and> downstream (foldl (step cfg) s evs) = None
     \<and> connects (foldl (step cfg) s evs) = []"
proof (induction evs arbitrary: s)
  case Nil
  then show ?case by simp
next
  case (Cons ev evs)
  from Cons.prems have "upstream (step cfg s ev) = Finished \<and> downstream (step cfg s ev) = None
      \<and> connects (step cfg s ev) = []"
    by (cases ev) (simp_all add: remote_write_def remote_end_def)
  from Cons.IH[OF this] show ?case by simp
qed

lemma rejected_never_connects:
  assumes "snd (processVlessHeader cfg buf) = Inr (HasError m)"
  shows "connects (run cfg (Message buf # evs)) = []"
proof -
  obtain gets where g: "processVlessHeader cfg buf = (gets, Inr (HasError m))"
    using assms by (cases "processVlessHeader cfg buf") simp
  have "step cfg initial (Message buf)
          = abort_upstream (initial\<lparr>kvGets := kvGets initial @ gets\<rparr>)"
    by (simp add: ws_write_def g initial_def)
  then have "upstream (step cfg initial (Message buf)) = Finished
      \<and> downstream (step cfg initial (Message buf)) = None
      \<and> connects (step cfg initial (Message buf)) = []"
    by (simp add: initial_def)
  from finished_stays[OF this, of cfg evs] show ?thesis by (simp add: run_def)
qed

section \<open>The byte streams of a session\<close>

text \<open>
  C1. The bytes written to the outbound socket are to be the bytes received from the
  WebSocket from the payload offset on, the rest of the first chunk coming first and
  nothing else before or between. In the session of scenario 1 followed by a second
  chunk \<^verbatim>\<open>!\<close>, \<^verbatim>\<open>connectAndWrite\<close> (lines 319-326) first writes the two bytes of the response
  header to the outbound socket and only then the rest \<^verbatim>\<open>HELLO\<close> of the first chunk: the
  destination receives \<^verbatim>\<open>00 00\<close> in front of the client's bytes.
\<close>

theorem response_header_written_to_outbound:
  "snd (processVlessHeader example_config hello_chunk) =
     Inr (Parsed \<lparr>addressRemote = ''127.0.0.1'', addressType = 1, portRemote = 80,
            rawDataIndex = 26, vlessVersion = [0], isUDP = False\<rparr>)
   \<and> drop 26 hello_chunk = [72, 69, 76, 76, 79]
   \<and> connects (run example_config [Message hello_chunk, Message [33]]) = [(''127.0.0.1'', 80)]
   \<and> written (run example_config [Message hello_chunk, Message [33]]) =
        [(0, [0, 0]), (0, [72, 69, 76, 76, 79]), (0, [33])]
   \<and> outbound_bytes 0 (run example_config [Message hello_chunk, Message [33]]) =
        [0, 0] @ drop 26 hello_chunk @ [33]
   \<and> outbound_bytes 0 (run example_config [Message hello_chunk, Message [33]]) \<noteq>
        drop 26 hello_chunk @ [33]"
  by code_simp

text \<open>
  C2. Exactly one byte sequence starting with the version and a zero byte is to be sent
  downstream over the WebSocket, before every downstream payload byte. In the session
  of scenario 1 where the destination answers with the chunks \<^verbatim>\<open>HI\<close> and \<^verbatim>\<open>J\<close>, the
  WebSocket is sent exactly these two chunks: \<^verbatim>\<open>remoteSocketToWS\<close> is not given the
  response header, and the only place that emits it writes it to the outbound socket.
\<close>

theorem no_response_header_downstream:
  "sent (run example_config [Message hello_chunk, RemoteData [72, 73], RemoteData [74]]) =
     [[72, 73], [74]]
   \<and> downstream_bytes
        (run example_config [Message hello_chunk, RemoteData [72, 73], RemoteData [74]]) =
     [72, 73, 74]
   \<and> written (run example_config [Message hello_chunk, RemoteData [72, 73], RemoteData [74]]) =
     [(0, [0, 0]), (0, [72, 69, 76, 76, 79])]"
  by code_simp

section \<open>The header parser\<close>

lemma short_ipv6_chunk_throws:
  "processVlessHeader example_config short_ipv6_chunk = ([], Inl RangeError)"
proof -
  have v: "validate_user example_config (stringify (slice_bytes short_ipv6_chunk (Suc 0) 17))
      = ([], True)"
    by code_simp
  have l: "ipv6_loop (slice_bytes short_ipv6_chunk 22 38) 0 [] = Inl RangeError"
    by (simp add: ipv6_loop.simps getUint16_def slice_bytes_def short_ipv6_chunk_def
        example_id_def)
  have n: "length short_ipv6_chunk = 24" "unat (short_ipv6_chunk ! 17) = 0"
    "first_byte (slice_bytes short_ipv6_chunk 18 19) = Some 1"
    "getUint16 (slice_bytes short_ipv6_chunk 19 21) 0 = Inr 80"
    "first_byte (slice_bytes short_ipv6_chunk 21 22) = Some 3"
    by code_simp+
  show ?thesis
    by (simp add: processVlessHeader_def parse_address_def Let_def v l n)
qed

text \<open>
  C3. The parser is claimed never to throw, also when the options length puts the
  port or the address past the end of a buffer of 24 bytes or more. On
  \<^const>\<open>truncated_chunk\<close> (24 bytes, accepted identifier, command TCP in the last byte) the
  port is read through a \<^verbatim>\<open>DataView\<close> over an empty slice, and \<^verbatim>\<open>getUint16\<close> throws a
  \<^verbatim>\<open>RangeError\<close>: the call does not return a failure value. The same happens on
  \<^const>\<open>short_ipv6_chunk\<close>, when the second group of the IPv6 address is read.
\<close>

theorem truncated_header_throws:
  "length truncated_chunk = 24
   \<and> processVlessHeader example_config truncated_chunk = ([], Inl RangeError)
   \<and> length short_ipv6_chunk = 24
   \<and> processVlessHeader example_config short_ipv6_chunk = ([], Inl RangeError)"
proof -
  have "length truncated_chunk = 24
   \<and> processVlessHeader example_config truncated_chunk = ([], Inl RangeError)
   \<and> length short_ipv6_chunk = 24"
    by code_simp
  with short_ipv6_chunk_throws show ?thesis by simp
qed

text \<open>
  C4. Whenever the parser accepts a buffer, the offset it returns is
  \<open>22 + O + addressLength + (1 if the address is a domain name)\<close>, with the address length
  4 for IPv4, 16 for IPv6 and the length byte for a domain name, and the port is the
  big-endian 16-bit value at offset \<open>19 + O\<close>. Every byte the formula reads lies inside
  the buffer.
\<close>

theorem payload_offset_and_port:
  assumes "snd (processVlessHeader cfg buf) = Inr (Parsed req)"
  shows "24 \<le> length buf
     \<and> 21 + spec_optionsLength buf < length buf
     \<and> (spec_addressType buf = 1 \<or> spec_addressType buf = 2 \<or> spec_addressType buf = 3)
     \<and> (spec_addressType buf = 2 \<longrightarrow> 22 + spec_optionsLength buf < length buf)
     \<and> addressType req = spec_addressType buf
     \<and> rawDataIndex req = spec_payloadOffset buf
     \<and> portRemote req = spec_port buf"
proof -
  let ?O = "unat (buf ! 17)"
  from assms have len: "24 \<le> length buf"
    by (auto simp: processVlessHeader_def split: if_splits)
  from assms len obtain port where
    port: "getUint16 (slice_bytes buf (19 + ?O) (19 + ?O + 2)) 0 = Inr port"
    and pa: "parse_address cfg buf (slice_bytes buf 0 1)
               (first_byte (slice_bytes buf (18 + ?O) (18 + ?O + 1)) = Some 2) port (21 + ?O)
             = Inr (Parsed req)"
    by (auto simp: processVlessHeader_def Let_def add.commute add.left_commute
        split: if_splits prod.splits sum.splits)
  from port have p: "port = 256 * unat (buf ! (19 + ?O)) + unat (buf ! (20 + ?O))"
    by (auto simp: getUint16_slice add.commute split: if_splits)
  from parse_address_Parsed[OF pa] p len show ?thesis
    by (auto simp: spec_optionsLength_def spec_addressType_def spec_addressLength_def
        spec_payloadOffset_def spec_port_def)
qed

theorem payload_offset_and_port_witness:
  "snd (processVlessHeader example_config domain_chunk) =
     Inr (Parsed \<lparr>addressRemote = ''a.b'', addressType = 2, portRemote = 443,
            rawDataIndex = 28, vlessVersion = [0], isUDP = False\<rparr>)
   \<and> spec_addressType domain_chunk = 2
   \<and> spec_optionsLength domain_chunk = 2
   \<and> spec_addressLength domain_chunk = 3
   \<and> 22 + spec_optionsLength domain_chunk < length domain_chunk
   \<and> spec_payloadOffset domain_chunk = 28
   \<and> spec_port domain_chunk = 443"
proof -
  have h: "snd (processVlessHeader example_config domain_chunk) =
     Inr (Parsed \<lparr>addressRemote = ''a.b'', addressType = 2, portRemote = 443,
            rawDataIndex = 28, vlessVersion = [0], isUDP = False\<rparr>)"
    by code_simp
  from payload_offset_and_port[OF h]
  have "spec_addressType domain_chunk = 2"
    and "spec_payloadOffset domain_chunk = 28" and "spec_port domain_chunk = 443"
    by simp_all
  moreover from payload_offset_and_port[OF h] \<open>spec_addressType domain_chunk = 2\<close>
  have "22 + spec_optionsLength domain_chunk < length domain_chunk" by blast
  moreover have "spec_optionsLength domain_chunk = 2" by code_simp
  moreover have "spec_addressLength domain_chunk = 3" by code_simp
  ultimately show ?thesis using h by simp
qed

text \<open>
  C5. A buffer shorter than 24 bytes gets the failure \<^verbatim>\<open>Invalid data length\<close>, whatever
  the configuration, before any lookup and never a parsed request.
\<close>

theorem short_buffer_rejected:
  "length buf < 24 \<Longrightarrow> processVlessHeader cfg buf = ([], Inr (HasError Invalid_data_length))"
  by (simp add: processVlessHeader_def)

theorem short_buffer_rejected_witness:
  "length (take 23 hello_chunk) < 24
   \<and> processVlessHeader example_config (take 23 hello_chunk)
       = ([], Inr (HasError Invalid_data_length))"
proof -
  have h: "length (take 23 hello_chunk) < 24" by simp
  from short_buffer_rejected[OF h] h show ?thesis by blast
qed

section \<open>UDP\<close>

text \<open>
  C6. UDP is to be accepted for port 53 only, and where DNS over UDP is not
  implemented, UDP to port 53 is to be rejected instead of leaving the session open
  without forwarding anything. On \<^const>\<open>dns_chunk\<close> the handler sets \<^verbatim>\<open>isDns\<close> and returns
  (lines 137-152): the WebSocket stays open, the inbound stream keeps reading, nothing
  is dialled and nothing is sent. Since \<^verbatim>\<open>isDns\<close> stays set, a valid TCP request that
  follows is dropped in the same way. UDP to another port, as in \<^const>\<open>udp_chunk\<close>, does
  end the inbound stream and close the WebSocket.
\<close>

theorem dns_session_left_open:
  "snd (processVlessHeader example_config dns_chunk) =
     Inr (Parsed \<lparr>addressRemote = ''8.8.8.8'', addressType = 1, portRemote = 53,
            rawDataIndex = 26, vlessVersion = [0], isUDP = True\<rparr>)
   \<and> run example_config [Message dns_chunk] =
        initial\<lparr>isDns := True, currentVlessVersion := [0]\<rparr>
   \<and> readyState (run example_config [Message dns_chunk]) = WS_READY_STATE_OPEN
   \<and> upstream (run example_config [Message dns_chunk]) = Reading
   \<and> connects (run example_config [Message dns_chunk]) = []
   \<and> sent (run example_config [Message dns_chunk]) = []
   \<and> run example_config [Message dns_chunk, Message hello_chunk] =
        run example_config [Message dns_chunk]
   \<and> readyState (run example_config [Message udp_chunk]) = WS_READY_STATE_CLOSED
   \<and> upstream (run example_config [Message udp_chunk]) = Finished"
  by code_simp

section \<open>The fallback dial\<close>

text \<open>
  C7, as claimed: without a fallback destination the session makes no second dial and
  in particular does not dial the original destination again. In the session of
  scenario 1 with \<^verbatim>\<open>proxyIP\<close> empty, when the destination closes without a byte, the
  worker dials 127.0.0.1:80 a second time.
\<close>

theorem redial_without_proxy:
  "proxyIP example_config = []
   \<and> connects (run example_config [Message hello_chunk]) = [(''127.0.0.1'', 80)]
   \<and> connects (run example_config [Message hello_chunk, RemoteEnd]) =
        [(''127.0.0.1'', 80), (''127.0.0.1'', 80)]"
  by code_simp

text \<open>
  C7, amended. When no fallback destination is configured and the pump of the first
  connection ends before the destination sent a byte, \<^verbatim>\<open>retry\<close> dials
  \<^verbatim>\<open>proxyIP || addressRemote\<close>, that is the original destination on the original port,
  exactly once more; whatever happens afterwards, the session has these two dials and
  no third.
\<close>

theorem no_proxy_redials_original:
  assumes "proxyIP cfg = []"
    and "downstream (run cfg evs) = Some p" and "\<not> hasIncomingData p" and "retry p = Some ob"
  shows "connects (run cfg evs) = [(tcp_address ob, tcp_port ob)]
     \<and> connects (run cfg (evs @ [RemoteEnd])) =
         [(tcp_address ob, tcp_port ob), (tcp_address ob, tcp_port ob)]
     \<and> connects (run cfg (evs @ [RemoteEnd] @ evs')) =
         [(tcp_address ob, tcp_port ob), (tcp_address ob, tcp_port ob)]"
proof -
  have inv: "dial_inv (run cfg evs)" by (rule run_inv)
  with assms have c: "connects (run cfg evs) = [(tcp_address ob, tcp_port ob)]"
    by (simp add: dial_inv_def)
  from assms c have c2: "connects (run cfg (evs @ [RemoteEnd])) =
         [(tcp_address ob, tcp_port ob), (tcp_address ob, tcp_port ob)]"
    by (simp add: run_snoc remote_end_def connects_retry_call)
  then have "length (connects (run cfg (evs @ [RemoteEnd]))) = 2" by simp
  from connects_frozen[OF this, of evs'] c2
  have "connects (run cfg (evs @ [RemoteEnd] @ evs')) =
         [(tcp_address ob, tcp_port ob), (tcp_address ob, tcp_port ob)]" by simp
  with c c2 show ?thesis by simp
qed

theorem no_proxy_redials_original_witness:
  "proxyIP example_config = []
   \<and> downstream (run example_config [Message hello_chunk]) =
        Some \<lparr>source = 0, hasIncomingData = False, retry = Some hello_outbound\<rparr>
   \<and> connects (run example_config [Message hello_chunk]) = [(''127.0.0.1'', 80)]
   \<and> connects (run example_config
        ([Message hello_chunk] @ [RemoteEnd] @ [RemoteEnd, Message [33], RemoteData [1], RemoteEnd]))
       = [(''127.0.0.1'', 80), (''127.0.0.1'', 80)]"
proof -
  let ?p = "\<lparr>source = 0, hasIncomingData = False, retry = Some hello_outbound\<rparr>"
  have h1: "proxyIP example_config = []" by code_simp
  have h2: "downstream (run example_config [Message hello_chunk]) = Some ?p" by code_simp
  have h3: "\<not> hasIncomingData ?p" by simp
  have h4: "retry ?p = Some hello_outbound" by simp
  from no_proxy_redials_original[OF h1 h2 h3 h4,
      of "[RemoteEnd, Message [33], RemoteData [1], RemoteEnd]"]
  have "connects (run example_config [Message hello_chunk]) = [(''127.0.0.1'', 80)]"
    and "connects (run example_config
        ([Message hello_chunk] @ [RemoteEnd] @ [RemoteEnd, Message [33], RemoteData [1], RemoteEnd]))
       = [(''127.0.0.1'', 80), (''127.0.0.1'', 80)]"
    by (simp_all add: hello_outbound_def)
  with h1 h2 show ?thesis by simp
qed

text \<open>
  C8. A session dials at most twice, so the fallback dial happens at most once. A dial
  after the first one happens only at the end of the running pump, when that pump has
  not seen a byte (\<^verbatim>\<open>hasIncomingData\<close> false) and still holds \<^verbatim>\<open>retry\<close>, which only the
  pump of the first dial does; the pump started by the fallback holds no \<^verbatim>\<open>retry\<close>. Once
  the second dial is made, no continuation of the session dials again. The flag stands
  for what the socket did: as soon as a chunk read from an outbound socket is handed to
  its pump, the session never dials again, whatever follows, so the fallback dial is
  made only for a socket that closed or failed without yielding a byte; in particular,
  in any state, a chunk followed by the end of the socket leaves the dials as they are.
\<close>

theorem fallback_at_most_once:
  "length (connects (run cfg evs)) \<le> 2
   \<and> (connects (run cfg evs) \<noteq> []
        \<and> connects (run cfg (evs @ [ev])) \<noteq> connects (run cfg evs) \<longrightarrow>
        ev = RemoteEnd
        \<and> length (connects (run cfg evs)) = 1
        \<and> length (connects (run cfg (evs @ [ev]))) = 2
        \<and> (\<exists>p. downstream (run cfg evs) = Some p \<and> \<not> hasIncomingData p \<and> retry p \<noteq> None)
        \<and> (\<forall>q. downstream (run cfg (evs @ [ev])) = Some q \<longrightarrow> retry q = None))
   \<and> (length (connects (run cfg evs)) = 2 \<longrightarrow>
        connects (run cfg (evs @ evs')) = connects (run cfg evs))
   \<and> (downstream (run cfg pre) \<noteq> None \<longrightarrow>
        connects (run cfg (pre @ RemoteData c # post)) = connects (run cfg pre))
   \<and> connects (step cfg (step cfg s (RemoteData c)) RemoteEnd) = connects s"
proof (intro conjI impI)
  show "length (connects (run cfg evs)) \<le> 2" by (rule dial_inv_le2[OF run_inv])
next
  assume "downstream (run cfg pre) \<noteq> None"
  then show "connects (run cfg (pre @ RemoteData c # post)) = connects (run cfg pre)"
    by (rule yielded_never_dials)
next
  show "connects (step cfg (step cfg s (RemoteData c)) RemoteEnd) = connects s"
    by (rule data_then_end_no_dial)
next
  assume "length (connects (run cfg evs)) = 2"
  then show "connects (run cfg (evs @ evs')) = connects (run cfg evs)" by (rule connects_frozen)
next
  assume a: "connects (run cfg evs) \<noteq> []
    \<and> connects (run cfg (evs @ [ev])) \<noteq> connects (run cfg evs)"
  then have ne: "connects (run cfg evs) \<noteq> []"
    and ch: "connects (step cfg (run cfg evs) ev) \<noteq> connects (run cfg evs)"
    by (simp_all add: run_snoc)
  from new_dial[OF run_inv ne ch] obtain p ob where
    ev: "ev = RemoteEnd" and p: "downstream (run cfg evs) = Some p" "\<not> hasIncomingData p"
      "retry p = Some ob"
    and c: "connects (run cfg evs) = [(tcp_address ob, tcp_port ob)]"
    and c': "connects (step cfg (run cfg evs) ev) =
           [(tcp_address ob, tcp_port ob),
            (if proxyIP cfg \<noteq> [] then proxyIP cfg else tcp_address ob, tcp_port ob)]"
    by blast
  show "ev = RemoteEnd" by (rule ev)
  show "length (connects (run cfg evs)) = 1" using c by simp
  show "length (connects (run cfg (evs @ [ev]))) = 2" using c' by (simp add: run_snoc)
  show "\<exists>p. downstream (run cfg evs) = Some p \<and> \<not> hasIncomingData p \<and> retry p \<noteq> None"
    using p by simp
  show "\<forall>q. downstream (run cfg (evs @ [ev])) = Some q \<longrightarrow> retry q = None"
    using retry_spent[OF p] by (simp add: run_snoc ev)
qed

theorem fallback_at_most_once_witness:
  "connects (run fallback_config [Message hello_chunk]) = [(''127.0.0.1'', 80)]
   \<and> connects (run fallback_config ([Message hello_chunk] @ [RemoteEnd])) =
        [(''127.0.0.1'', 80), (''cdn.example'', 80)]
   \<and> (\<exists>p. downstream (run fallback_config [Message hello_chunk]) = Some p
          \<and> \<not> hasIncomingData p \<and> retry p \<noteq> None)
   \<and> downstream (run fallback_config ([Message hello_chunk] @ [RemoteEnd])) =
        Some \<lparr>source = 1, hasIncomingData = False, retry = None\<rparr>
   \<and> connects (run fallback_config
        ([Message hello_chunk, RemoteEnd] @ [RemoteEnd, RemoteData [1], RemoteEnd])) =
        connects (run fallback_config [Message hello_chunk, RemoteEnd])
   \<and> downstream (run fallback_config [Message hello_chunk]) \<noteq> None
   \<and> connects (run fallback_config
        ([Message hello_chunk] @ RemoteData [72, 73] # [RemoteEnd, RemoteEnd])) =
        [(''127.0.0.1'', 80)]"
proof -
  have d2: "downstream (run fallback_config ([Message hello_chunk] @ [RemoteEnd])) =
        Some \<lparr>source = 1, hasIncomingData = False, retry = None\<rparr>"
    by code_simp
  have c1: "connects (run fallback_config [Message hello_chunk]) = [(''127.0.0.1'', 80)]"
    by code_simp
  have c2: "connects (run fallback_config ([Message hello_chunk] @ [RemoteEnd])) =
        [(''127.0.0.1'', 80), (''cdn.example'', 80)]"
    by code_simp
  from c1 c2 have h: "connects (run fallback_config [Message hello_chunk]) \<noteq> []
      \<and> connects (run fallback_config ([Message hello_chunk] @ [RemoteEnd]))
          \<noteq> connects (run fallback_config [Message hello_chunk])"
    by simp
  from fallback_at_most_once[of fallback_config "[Message hello_chunk]" RemoteEnd] h
  have p: "\<exists>p. downstream (run fallback_config [Message hello_chunk]) = Some p
          \<and> \<not> hasIncomingData p \<and> retry p \<noteq> None"
    by blast
  from c2 have l: "length (connects (run fallback_config [Message hello_chunk, RemoteEnd])) = 2"
    by simp
  from fallback_at_most_once[of fallback_config "[Message hello_chunk, RemoteEnd]" _
      "[RemoteEnd, RemoteData [1], RemoteEnd]"] l
  have "connects (run fallback_config
        ([Message hello_chunk, RemoteEnd] @ [RemoteEnd, RemoteData [1], RemoteEnd])) =
        connects (run fallback_config [Message hello_chunk, RemoteEnd])"
    by blast
  moreover from p have pump: "downstream (run fallback_config [Message hello_chunk]) \<noteq> None"
    by auto
  moreover from fallback_at_most_once[of fallback_config _ _ _ "[Message hello_chunk]"
      "[72, 73]" "[RemoteEnd, RemoteEnd]"] pump c1
  have "connects (run fallback_config
        ([Message hello_chunk] @ RemoteData [72, 73] # [RemoteEnd, RemoteEnd])) =
        [(''127.0.0.1'', 80)]"
    by simp
  ultimately show ?thesis using c1 c2 p d2 by blast
qed

section \<open>Identity acceptance\<close>

text \<open>
  C9, as claimed: any stored value that is not \<^verbatim>\<open>null\<close> accepts. The worker tests the
  value for truthiness (line 210), so an entry whose value is the empty string is read
  back as a string, not as \<^verbatim>\<open>null\<close>, and the identifier is rejected all the same.
\<close>

theorem empty_stored_value_rejected:
  "stringify (slice_bytes hello_chunk 1 17) = ''0102030405060708090a0b0c0d0e0f10''
   \<and> VLESS_KV (kv_config (KvValue (Some ''''))) = Some (example_kv (KvValue (Some '''')))
   \<and> example_kv (KvValue (Some '''')) ''0102030405060708090a0b0c0d0e0f10'' = KvValue (Some '''')
   \<and> processVlessHeader (kv_config (KvValue (Some ''''))) hello_chunk
       = ([''0102030405060708090a0b0c0d0e0f10''], Inr (HasError Invalid_user_ID))"
proof -
  have "stringify (slice_bytes hello_chunk 1 17) = ''0102030405060708090a0b0c0d0e0f10''"
    by code_simp
  moreover have "VLESS_KV (kv_config (KvValue (Some ''''))) = Some (example_kv (KvValue (Some '''')))"
    by (simp add: kv_config_def)
  moreover have "example_kv (KvValue (Some '''')) ''0102030405060708090a0b0c0d0e0f10''
      = KvValue (Some '''')"
    by (simp add: example_kv_def)
  moreover have "processVlessHeader (kv_config (KvValue (Some ''''))) hello_chunk
       = ([''0102030405060708090a0b0c0d0e0f10''], Inr (HasError Invalid_user_ID))"
    by code_simp
  ultimately show ?thesis by blast
qed

text \<open>
  C9, amended. For a first chunk of at least 24 bytes the key is the 32 lowercase
  hexadecimal characters of the 16 identifier bytes. The namespace is asked at most
  once, for that key, and not at all when the static comparison succeeds. A stored
  value that is neither \<^verbatim>\<open>null\<close> nor the empty string accepts; a lookup that throws
  rejects; and an identifier that neither source accepts gets \<^verbatim>\<open>Invalid user ID\<close>, after
  which the session never dials, whatever follows.
\<close>

theorem identity_acceptance:
  assumes len: "24 \<le> length buf" and key: "key = stringify (slice_bytes buf 1 17)"
  shows "length key = 32 \<and> set key \<subseteq> hex_digits
    \<and> (fst (processVlessHeader cfg buf) = [] \<or> fst (processVlessHeader cfg buf) = [key])
    \<and> (key = remove_hyphens (userID cfg) \<longrightarrow>
         fst (processVlessHeader cfg buf) = []
         \<and> snd (processVlessHeader cfg buf) \<noteq> Inr (HasError Invalid_user_ID))
    \<and> (key \<noteq> remove_hyphens (userID cfg) \<and> VLESS_KV cfg = Some kv
         \<and> kv key = KvValue (Some v) \<and> v \<noteq> [] \<longrightarrow>
         fst (processVlessHeader cfg buf) = [key]
         \<and> snd (processVlessHeader cfg buf) \<noteq> Inr (HasError Invalid_user_ID))
    \<and> (key \<noteq> remove_hyphens (userID cfg) \<and> VLESS_KV cfg = Some kv \<and> kv key = KvThrows \<longrightarrow>
         processVlessHeader cfg buf = ([key], Inr (HasError Invalid_user_ID)))
    \<and> (key \<noteq> remove_hyphens (userID cfg)
         \<and> (VLESS_KV cfg = None
             \<or> VLESS_KV cfg = Some kv
                \<and> (kv key = KvValue None \<or> kv key = KvValue (Some []) \<or> kv key = KvThrows)) \<longrightarrow>
         snd (processVlessHeader cfg buf) = Inr (HasError Invalid_user_ID)
         \<and> connects (run cfg (Message buf # evs)) = [])"
proof -
  note inv = processVlessHeader_invalid_user[OF len, of cfg, folded key]
  note gets = processVlessHeader_gets[OF len, of cfg, folded key]
  have a: "length key = 32"
    using length_slice_id[OF len] by (simp add: key length_stringify)
  have b: "set key \<subseteq> hex_digits" by (simp add: key set_stringify)
  have c: "fst (processVlessHeader cfg buf) = [] \<or> fst (processVlessHeader cfg buf) = [key]"
    by (auto simp: gets validate_user_def split: option.splits kv_reply.splits)
  have d: "key = remove_hyphens (userID cfg) \<longrightarrow>
         fst (processVlessHeader cfg buf) = []
         \<and> snd (processVlessHeader cfg buf) \<noteq> Inr (HasError Invalid_user_ID)"
    by (simp add: gets inv validate_user_def)
  have e: "key \<noteq> remove_hyphens (userID cfg) \<and> VLESS_KV cfg = Some kv
         \<and> kv key = KvValue (Some v) \<and> v \<noteq> [] \<longrightarrow>
         fst (processVlessHeader cfg buf) = [key]
         \<and> snd (processVlessHeader cfg buf) \<noteq> Inr (HasError Invalid_user_ID)"
    by (simp add: gets inv validate_user_def truthy_def)
  have f: "key \<noteq> remove_hyphens (userID cfg) \<and> VLESS_KV cfg = Some kv \<and> kv key = KvThrows \<longrightarrow>
         processVlessHeader cfg buf = ([key], Inr (HasError Invalid_user_ID))"
  proof
    assume h: "key \<noteq> remove_hyphens (userID cfg) \<and> VLESS_KV cfg = Some kv \<and> kv key = KvThrows"
    then have "fst (processVlessHeader cfg buf) = [key]"
      and "snd (processVlessHeader cfg buf) = Inr (HasError Invalid_user_ID)"
      by (simp_all add: gets inv validate_user_def)
    then show "processVlessHeader cfg buf = ([key], Inr (HasError Invalid_user_ID))"
      by (cases "processVlessHeader cfg buf") simp
  qed
  have g: "key \<noteq> remove_hyphens (userID cfg)
         \<and> (VLESS_KV cfg = None
             \<or> VLESS_KV cfg = Some kv
                \<and> (kv key = KvValue None \<or> kv key = KvValue (Some []) \<or> kv key = KvThrows)) \<longrightarrow>
         snd (processVlessHeader cfg buf) = Inr (HasError Invalid_user_ID)
         \<and> connects (run cfg (Message buf # evs)) = []"
  proof
    assume "key \<noteq> remove_hyphens (userID cfg)
         \<and> (VLESS_KV cfg = None
             \<or> VLESS_KV cfg = Some kv
                \<and> (kv key = KvValue None \<or> kv key = KvValue (Some []) \<or> kv key = KvThrows))"
    then have r: "snd (processVlessHeader cfg buf) = Inr (HasError Invalid_user_ID)"
      by (auto simp: inv validate_user_def truthy_def)
    from rejected_never_connects[OF r] r
    show "snd (processVlessHeader cfg buf) = Inr (HasError Invalid_user_ID)
         \<and> connects (run cfg (Message buf # evs)) = []" by simp
  qed
  from a b c d e f g show ?thesis by blast
qed

theorem identity_acceptance_witness:
  "24 \<le> length hello_chunk
   \<and> ''0102030405060708090a0b0c0d0e0f10'' = stringify (slice_bytes hello_chunk 1 17)
   \<and> fst (processVlessHeader example_config hello_chunk) = []
   \<and> snd (processVlessHeader example_config hello_chunk) \<noteq> Inr (HasError Invalid_user_ID)
   \<and> fst (processVlessHeader (kv_config (KvValue (Some ''{}''))) hello_chunk) =
        [''0102030405060708090a0b0c0d0e0f10'']
   \<and> snd (processVlessHeader (kv_config (KvValue (Some ''{}''))) hello_chunk) \<noteq>
        Inr (HasError Invalid_user_ID)
   \<and> processVlessHeader (kv_config KvThrows) hello_chunk =
        ([''0102030405060708090a0b0c0d0e0f10''], Inr (HasError Invalid_user_ID))
   \<and> snd (processVlessHeader (kv_config (KvValue None)) hello_chunk) =
        Inr (HasError Invalid_user_ID)
   \<and> connects (run (kv_config (KvValue None))
        (Message hello_chunk # [Message hello_chunk, RemoteEnd])) = []"
proof -
  let ?key = "''0102030405060708090a0b0c0d0e0f10''"
  have len: "24 \<le> length hello_chunk" by code_simp
  have key: "?key = stringify (slice_bytes hello_chunk 1 17)" by code_simp
  have static: "?key = remove_hyphens (userID example_config)" by code_simp
  have other: "?key \<noteq> remove_hyphens (userID (kv_config reply))" for reply
    by (simp add: kv_config_def remove_hyphens_def)
  have kv: "VLESS_KV (kv_config reply) = Some (example_kv reply)" for reply
    by (simp add: kv_config_def)
  have reply: "example_kv reply ?key = reply" for reply
    by (simp add: example_kv_def)
  from identity_acceptance[OF len key, of example_config] static
  have w1: "fst (processVlessHeader example_config hello_chunk) = []
      \<and> snd (processVlessHeader example_config hello_chunk) \<noteq> Inr (HasError Invalid_user_ID)"
    by blast
  have "''{}'' \<noteq> ([] :: string)" by simp
  with identity_acceptance[OF len key, of "kv_config (KvValue (Some ''{}''))"
      "example_kv (KvValue (Some ''{}''))" "''{}''"] other kv reply
  have w2: "fst (processVlessHeader (kv_config (KvValue (Some ''{}''))) hello_chunk) = [?key]
      \<and> snd (processVlessHeader (kv_config (KvValue (Some ''{}''))) hello_chunk) \<noteq>
          Inr (HasError Invalid_user_ID)"
    by blast
  from identity_acceptance[OF len key, of "kv_config KvThrows" "example_kv KvThrows"]
    other kv reply
  have w3: "processVlessHeader (kv_config KvThrows) hello_chunk =
      ([?key], Inr (HasError Invalid_user_ID))"
    by blast
  from identity_acceptance[OF len key, of "kv_config (KvValue None)" "example_kv (KvValue None)"
      _ "[Message hello_chunk, RemoteEnd]"] other kv reply
  have w4: "snd (processVlessHeader (kv_config (KvValue None)) hello_chunk) =
        Inr (HasError Invalid_user_ID)
      \<and> connects (run (kv_config (KvValue None))
          (Message hello_chunk # [Message hello_chunk, RemoteEnd])) = []"
    by blast
  from len key w1 w2 w3 w4 show ?thesis by blast
qed

text \<open>
  C10. The static check compares the lowercase hexadecimal rendering of the identifier
  bytes with the configured identifier without its hyphens, as strings. When the
  configured identifier contains one of the characters \<^verbatim>\<open>A\<close> to \<^verbatim>\<open>F\<close>, no identifier
  passes the static check, and a header is accepted only if the namespace holds a
  non-empty value for its key.
\<close>

theorem uppercase_uuid_never_matches:
  assumes "c \<in> set (userID cfg)" and "c \<in> set ''ABCDEF''"
  shows "(validate_user cfg key = ([], True)) = (key = remove_hyphens (userID cfg))
    \<and> stringify ids \<noteq> remove_hyphens (userID cfg)
    \<and> (snd (validate_user cfg (stringify ids)) \<longrightarrow>
         (\<exists>kv v. VLESS_KV cfg = Some kv \<and> kv (stringify ids) = KvValue (Some v) \<and> v \<noteq> []))
    \<and> (snd (processVlessHeader cfg buf) = Inr (Parsed req) \<longrightarrow>
         (\<exists>kv v. VLESS_KV cfg = Some kv
            \<and> kv (stringify (slice_bytes buf 1 17)) = KvValue (Some v) \<and> v \<noteq> []))"
proof -
  have a: "(validate_user cfg key = ([], True)) = (key = remove_hyphens (userID cfg))"
    by (auto simp: validate_user_def split: option.splits kv_reply.splits)
  have ne: "stringify ids \<noteq> remove_hyphens (userID cfg)" for ids
    using assms by (rule stringify_never_uppercase)
  have kv: "snd (validate_user cfg (stringify ids)) \<longrightarrow>
         (\<exists>kv v. VLESS_KV cfg = Some kv \<and> kv (stringify ids) = KvValue (Some v) \<and> v \<noteq> [])" for ids
  proof
    assume "snd (validate_user cfg (stringify ids))"
    then have "validate_user cfg (stringify ids) = (fst (validate_user cfg (stringify ids)), True)"
      by (cases "validate_user cfg (stringify ids)") simp
    from validate_user_True[OF this] ne[of ids]
    show "\<exists>kv v. VLESS_KV cfg = Some kv \<and> kv (stringify ids) = KvValue (Some v) \<and> v \<noteq> []"
      by blast
  qed
  have p: "snd (processVlessHeader cfg buf) = Inr (Parsed req) \<longrightarrow>
         (\<exists>kv v. VLESS_KV cfg = Some kv
            \<and> kv (stringify (slice_bytes buf 1 17)) = KvValue (Some v) \<and> v \<noteq> [])"
  proof
    assume r: "snd (processVlessHeader cfg buf) = Inr (Parsed req)"
    then have len: "24 \<le> length buf"
      by (auto simp: processVlessHeader_def split: if_splits)
    from r have "snd (processVlessHeader cfg buf) \<noteq> Inr (HasError Invalid_user_ID)" by simp
    from processVlessHeader_valid_user[OF this len] kv[of "slice_bytes buf 1 17"]
    show "\<exists>kv v. VLESS_KV cfg = Some kv
            \<and> kv (stringify (slice_bytes buf 1 17)) = KvValue (Some v) \<and> v \<noteq> []" by blast
  qed
  from a ne[of ids] kv[of ids] p show ?thesis by blast
qed

theorem uppercase_uuid_never_matches_witness:
  "CHR ''A'' \<in> set (userID uppercase_config) \<and> CHR ''A'' \<in> set ''ABCDEF''
   \<and> remove_hyphens (userID uppercase_config) = ''0102030405060708090A0B0C0D0E0F10''
   \<and> stringify example_id = ''0102030405060708090a0b0c0d0e0f10''
   \<and> stringify example_id \<noteq> remove_hyphens (userID uppercase_config)
   \<and> processVlessHeader uppercase_config hello_chunk = ([], Inr (HasError Invalid_user_ID))
   \<and> snd (validate_user uppercase_kv_config (stringify example_id))
   \<and> (\<exists>kv v. VLESS_KV uppercase_kv_config = Some kv
         \<and> kv (stringify example_id) = KvValue (Some v) \<and> v \<noteq> [])
   \<and> snd (processVlessHeader uppercase_kv_config hello_chunk) =
       Inr (Parsed \<lparr>addressRemote = ''127.0.0.1'', addressType = 1, portRemote = 80,
              rawDataIndex = 26, vlessVersion = [0], isUDP = False\<rparr>)
   \<and> (\<exists>kv v. VLESS_KV uppercase_kv_config = Some kv
         \<and> kv (stringify (slice_bytes hello_chunk 1 17)) = KvValue (Some v) \<and> v \<noteq> [])"
proof -
  have u1: "CHR ''A'' \<in> set (userID uppercase_config)" by code_simp
  have u2: "CHR ''A'' \<in> set (userID uppercase_kv_config)" by code_simp
  have up: "CHR ''A'' \<in> set ''ABCDEF''" by simp
  have r: "remove_hyphens (userID uppercase_config) = ''0102030405060708090A0B0C0D0E0F10''"
    by code_simp
  have s: "stringify example_id = ''0102030405060708090a0b0c0d0e0f10''" by code_simp
  have rej: "processVlessHeader uppercase_config hello_chunk = ([], Inr (HasError Invalid_user_ID))"
    by code_simp
  have v: "snd (validate_user uppercase_kv_config (stringify example_id))" by code_simp
  have acc: "snd (processVlessHeader uppercase_kv_config hello_chunk) =
       Inr (Parsed \<lparr>addressRemote = ''127.0.0.1'', addressType = 1, portRemote = 80,
              rawDataIndex = 26, vlessVersion = [0], isUDP = False\<rparr>)"
    by code_simp
  from uppercase_uuid_never_matches[OF u1 up, of _ example_id]
  have w1: "stringify example_id \<noteq> remove_hyphens (userID uppercase_config)" by blast
  from uppercase_uuid_never_matches[OF u2 up, of _ example_id hello_chunk] v acc
  have w2: "(\<exists>kv v. VLESS_KV uppercase_kv_config = Some kv
         \<and> kv (stringify example_id) = KvValue (Some v) \<and> v \<noteq> [])"
    and w3: "(\<exists>kv v. VLESS_KV uppercase_kv_config = Some kv
         \<and> kv (stringify (slice_bytes hello_chunk 1 17)) = KvValue (Some v) \<and> v \<noteq> [])"
    by blast+
  from u1 up r s rej v acc w1 w2 w3 show ?thesis by blast
qed

end
